theory Spec2Isabelle
  imports Main "HOL-Library.AList"
begin

section \<open>The games service (services/games.service.js)\<close>

text \<open>
  A shallow embedding of the Moleculer service \<^verbatim>\<open>games\<close>: its actions
  \<^verbatim>\<open>create\<close>, \<^verbatim>\<open>update\<close>, \<^verbatim>\<open>list\<close>, \<^verbatim>\<open>listByUser\<close>, \<^verbatim>\<open>remove\<close> and its methods
  \<^verbatim>\<open>findBySlug\<close>, \<^verbatim>\<open>transformResult\<close>, \<^verbatim>\<open>transformEntity\<close>.
  Handlers that write take the store and return the new one; a thrown error is the
  \<open>Inl\<close> branch of the result. The clock (\<^verbatim>\<open>new Date()\<close>), the random draw
  (\<^verbatim>\<open>Math.random()\<close>), the slug library and the identifier the store gives a new
  document are parameters of the handlers.
\<close>

subsection \<open>JavaScript values and documents\<close>

text \<open>
  Numbers are integers here: no claim below depends on a fractional number. A date is its
  time in milliseconds. An object is the list of its properties in insertion order.
\<close>

datatype jsval =
    JUndefined
  | JNull
  | JBool bool
  | JNum int
  | JStr string
  | JDate int
  | JArr "jsval list"
  | JObj "(string \<times> jsval) list"

type_synonym doc = "(string \<times> jsval) list"

type_synonym store = "doc list"

text \<open>\<^verbatim>\<open>!v\<close> is \<open>\<not> truthy v\<close>.\<close>

fun truthy :: "jsval \<Rightarrow> bool" where
  "truthy JUndefined = False"
| "truthy JNull = False"
| "truthy (JBool b) = b"
| "truthy (JNum n) = (n \<noteq> 0)"
| "truthy (JStr s) = (s \<noteq> [])"
| "truthy (JDate t) = True"
| "truthy (JArr xs) = True"
| "truthy (JObj d) = True"

text \<open>\<^verbatim>\<open>d.k\<close>: a property that is not there reads as \<^verbatim>\<open>undefined\<close>.\<close>

definition field :: "doc \<Rightarrow> string \<Rightarrow> jsval" where
  "field d k = (case map_of d k of None \<Rightarrow> JUndefined | Some v \<Rightarrow> v)"

definition obj_field :: "jsval \<Rightarrow> string \<Rightarrow> jsval" where
  "obj_field v k = (case v of JObj d \<Rightarrow> field d k | _ \<Rightarrow> JUndefined)"

text \<open>\<^verbatim>\<open>d.k = v\<close>: an existing property is overwritten in place, a new one is appended.\<close>

definition set_field :: "string \<Rightarrow> jsval \<Rightarrow> doc \<Rightarrow> doc" where
  "set_field k v d = AList.update k v d"

text \<open>The errors the handlers throw: the validator's error, \<^verbatim>\<open>MoleculerClientError(_, 404)\<close>
  and \<^verbatim>\<open>ForbiddenError\<close>.\<close>

datatype error = ValidationError | NotFound | Forbidden

subsection \<open>Methods: transformEntity, transformResult\<close>

definition transformEntity :: "jsval \<Rightarrow> jsval" where
  "transformEntity entity = (if \<not> truthy entity then JNull else entity)"

fun transformResult :: "jsval \<Rightarrow> jsval" where
  "transformResult (JArr entities) = JObj [(''games'', JArr (map transformEntity entities))]"
| "transformResult entities = JObj [(''game'', transformEntity entities)]"

subsection \<open>The entity store\<close>

text \<open>
  The handlers reach the store through \<^verbatim>\<open>this.adapter\<close> and the methods of the
  database mixin (\<^verbatim>\<open>../mixins/db.mixin\<close>), which are not part of the service's file. The
  store is the list of its documents in insertion order.
\<close>

text \<open>A filter maps a property to a condition: a value to equal, or \<^verbatim>\<open>{"$in": [...]}\<close>.\<close>

datatype cond = Eq jsval | In "jsval list"

type_synonym query = "(string \<times> cond) list"

text \<open>Modelled from the spec: the filter of the Entity Store's \<^verbatim>\<open>find\<close>, \<^verbatim>\<open>count\<close>
  and \<^verbatim>\<open>findOne\<close> (section 6), with the tag filter as the membership test
  \<^verbatim>\<open>tag \<in> entity.tagList\<close> (section 4.1). The store's query engine is missing.\<close>

fun cond_holds :: "cond \<Rightarrow> jsval \<Rightarrow> bool" where
  "cond_holds (Eq v) x = (x = v)"
| "cond_holds (In vs) (JArr xs) = list_ex (\<lambda>x. x \<in> set vs) xs"
| "cond_holds (In vs) x = (x \<in> set vs)"

definition matches :: "query \<Rightarrow> doc \<Rightarrow> bool" where
  "matches q d = list_all (\<lambda>(k, c). cond_holds c (field d k)) q"

text \<open>The parameter object the list handlers build for \<^verbatim>\<open>adapter.find\<close> and
  \<^verbatim>\<open>adapter.count\<close>; \<open>None\<close> is \<^verbatim>\<open>null\<close>.\<close>

record find_params =
  p_limit :: "int option"
  p_offset :: "int option"
  p_sort :: "string list"
  p_populate :: "string list"
  p_query :: query

definition created_time :: "doc \<Rightarrow> int" where
  "created_time d = (case field d ''createdAt'' of JDate t \<Rightarrow> t | _ \<Rightarrow> 0)"

text \<open>Modelled from the spec: the Entity Store's sort (section 4.1: \<^verbatim>\<open>createdAt\<close>
  descending, the only order the service asks for). The store's sort is missing; ties keep
  the insertion order.\<close>

definition sort_rows :: "string list \<Rightarrow> doc list \<Rightarrow> doc list" where
  "sort_rows keys rows =
     (if keys = [''-createdAt''] then sort_key (\<lambda>d. - created_time d) rows else rows)"

text \<open>Modelled from the spec: \<^verbatim>\<open>find(query{limit,offset,sort,filter}) -> doc[]\<close> of the
  Entity Store (section 6), whose adapter is missing: the rows that match the filter,
  sorted, then the offset skipped and the limit applied. A limit or an offset that is
  \<^verbatim>\<open>null\<close> or not positive is not applied.\<close>

definition adapter_find :: "find_params \<Rightarrow> store \<Rightarrow> doc list" where
  "adapter_find p s =
     (let rows = sort_rows (p_sort p) (filter (matches (p_query p)) s);
          rows = (case p_offset p of Some n \<Rightarrow> if 0 < n then drop (nat n) rows else rows
                  | None \<Rightarrow> rows);
          rows = (case p_limit p of Some n \<Rightarrow> if 0 < n then take (nat n) rows else rows
                  | None \<Rightarrow> rows)
      in rows)"

text \<open>Modelled from the spec: \<^verbatim>\<open>count(query{filter}) -> int\<close> of the Entity Store
  (section 6), whose adapter is missing. It counts the rows its parameter object selects,
  so a limit or an offset left in that object would bound the count: the handlers strip
  them first.\<close>

definition adapter_count :: "find_params \<Rightarrow> store \<Rightarrow> nat" where
  "adapter_count p s = length (adapter_find p s)"

text \<open>Modelled from the spec: \<^verbatim>\<open>findOne(filter) -> doc|null\<close> of the Entity Store
  (section 6), whose adapter is missing: the first document that matches.\<close>

definition adapter_findOne :: "query \<Rightarrow> store \<Rightarrow> doc option" where
  "adapter_findOne q s = find (matches q) s"

text \<open>Modelled from the spec: \<^verbatim>\<open>insert(doc) -> doc\<close> of the Entity Store (section 6),
  whose adapter is missing: a document without an \<^verbatim>\<open>_id\<close> gets the fresh one.\<close>

definition adapter_insert :: "string \<Rightarrow> doc \<Rightarrow> store \<Rightarrow> doc \<times> store" where
  "adapter_insert new_id entity s =
     (let d = (if map_of entity ''_id'' = None then set_field ''_id'' (JStr new_id) entity
               else entity)
      in (d, s @ [d]))"

text \<open>The update document the update handler builds: \<^verbatim>\<open>{"$set": newData}\<close>.\<close>

datatype update_doc = Set doc

text \<open>Modelled from the spec: the partial merge of section 4.1 (only supplied fields
  change), which the store's missing adapter does for \<^verbatim>\<open>$set\<close>. The properties of the
  patch are written in the patch's order.\<close>

definition set_fields :: "doc \<Rightarrow> doc \<Rightarrow> doc" where
  "set_fields d patch = fold (\<lambda>(k, v). set_field k v) patch d"

fun apply_update :: "update_doc \<Rightarrow> doc \<Rightarrow> doc" where
  "apply_update (Set patch) d = set_fields d patch"

text \<open>Modelled from the spec: \<^verbatim>\<open>updateById(id, patch) -> doc\<close> of the Entity Store
  (section 6), whose adapter is missing: the first document with that \<^verbatim>\<open>_id\<close> is
  rewritten and returned, \<^verbatim>\<open>null\<close> when there is none.\<close>

fun adapter_updateById :: "jsval \<Rightarrow> update_doc \<Rightarrow> store \<Rightarrow> doc option \<times> store" where
  "adapter_updateById i u [] = (None, [])"
| "adapter_updateById i u (d # ds) =
     (if field d ''_id'' = i then (Some (apply_update u d), apply_update u d # ds)
      else (case adapter_updateById i u ds of (r, ds') \<Rightarrow> (r, d # ds')))"

text \<open>Modelled from the spec: \<^verbatim>\<open>removeById(id) -> doc\<close> of the Entity Store
  (section 6), whose adapter is missing: the first document with that \<^verbatim>\<open>_id\<close> is
  deleted and returned, \<^verbatim>\<open>null\<close> when there is none.\<close>

fun adapter_removeById :: "jsval \<Rightarrow> store \<Rightarrow> doc option \<times> store" where
  "adapter_removeById i [] = (None, [])"
| "adapter_removeById i (d # ds) =
     (if field d ''_id'' = i then (Some d, ds)
      else (case adapter_removeById i ds of (r, ds') \<Rightarrow> (r, d # ds')))"

text \<open>Modelled from the spec: the load of an entity by id (section 4.1, update), the
  mixin's missing \<^verbatim>\<open>getById\<close>: the first document with that \<^verbatim>\<open>_id\<close>.\<close>

definition getById :: "string \<Rightarrow> store \<Rightarrow> doc option" where
  "getById i s = find (\<lambda>d. field d ''_id'' = JStr i) s"

text \<open>A document or \<^verbatim>\<open>null\<close> as a value.\<close>

definition js_of_doc :: "doc option \<Rightarrow> jsval" where
  "js_of_doc r = (case r of None \<Rightarrow> JNull | Some d \<Rightarrow> JObj d)"

subsection \<open>Settings\<close>

definition settings_fields :: "string list" where
  "settings_fields = [''_id'', ''name'', ''description'', ''createdAt'', ''updatedAt'', ''creator'']"

text \<open>\<^verbatim>\<open>settings.entityValidator\<close>: \<^verbatim>\<open>name\<close> and \<^verbatim>\<open>description\<close> are strings of
  at least one character.\<close>

definition string_min1 :: "jsval \<Rightarrow> bool" where
  "string_min1 v = (case v of JStr s \<Rightarrow> 1 \<le> length s | _ \<Rightarrow> False)"

definition validateEntity :: "doc \<Rightarrow> bool" where
  "validateEntity entity = (string_min1 (field entity ''name'') \<and> string_min1 (field entity ''description''))"

text \<open>Modelled from the spec: the Populator (section 4.2) and the projection of the
  mixin's missing \<^verbatim>\<open>transformDocuments\<close>. A relation is resolved only when
  \<^verbatim>\<open>settings.populates\<close> has a rule for it; the handlers ask for \<^verbatim>\<open>creator\<close>, for which
  there is none (the one rule is for \<^verbatim>\<open>author\<close>), so no property is replaced and the
  step keeps, of every document, the properties named in \<^verbatim>\<open>settings.fields\<close>.\<close>

definition filterFields :: "string list \<Rightarrow> doc \<Rightarrow> doc" where
  "filterFields names d =
     map (\<lambda>n. (n, field d n)) (filter (\<lambda>n. field d n \<noteq> JUndefined) names)"

definition transformDocument :: "jsval \<Rightarrow> jsval" where
  "transformDocument v = (case v of JObj d \<Rightarrow> JObj (filterFields settings_fields d) | _ \<Rightarrow> v)"

fun transformDocuments :: "jsval \<Rightarrow> jsval" where
  "transformDocuments (JArr docs) = JArr (map transformDocument docs)"
| "transformDocuments v = transformDocument v"

subsection \<open>Slugs\<close>

text \<open>\<^verbatim>\<open>x | 0\<close>: the value as a signed 32-bit integer. The handler applies it to
  \<^verbatim>\<open>Math.random() * Math.pow(36, 6)\<close>, which is not negative, so the truncation of the
  product to an integer is its floor, the draw \<open>rnd\<close> below.\<close>

definition to_int32 :: "int \<Rightarrow> int" where
  "to_int32 x = (let m = x mod 2 ^ 32 in if 2 ^ 31 \<le> m then m - 2 ^ 32 else m)"

definition digits36 :: string where
  "digits36 = ''0123456789abcdefghijklmnopqrstuvwxyz''"

fun to_base36 :: "nat \<Rightarrow> string" where
  "to_base36 n = (if n < 36 then [digits36 ! n] else to_base36 (n div 36) @ [digits36 ! (n mod 36)])"

declare to_base36.simps [simp del]

text \<open>\<^verbatim>\<open>n.toString(36)\<close> of an integer.\<close>

definition toString36 :: "int \<Rightarrow> string" where
  "toString36 i = (if i < 0 then ''-'' @ to_base36 (nat (- i)) else to_base36 (nat i))"

text \<open>\<^verbatim>\<open>slug(entity.name, { lower: true }) + "-" + (Math.random() * Math.pow(36, 6) | 0).toString(36)\<close>;
  \<open>slugify\<close> is the slug library with \<^verbatim>\<open>lower\<close> set.\<close>

definition make_slug :: "(string \<Rightarrow> string) \<Rightarrow> int \<Rightarrow> string \<Rightarrow> string" where
  "make_slug slugify rnd name = slugify name @ ''-'' @ toString36 (to_int32 rnd)"

text \<open>The pattern \<^verbatim>\<open><prefix>-[0-9a-z]{6}\<close> of the spec's scenario.\<close>

definition slug_pattern6 :: "string \<Rightarrow> string \<Rightarrow> bool" where
  "slug_pattern6 prefix s =
     (length s = length prefix + 7 \<and> take (length prefix + 1) s = prefix @ ''-''
      \<and> list_all (\<lambda>c. c \<in> set digits36) (drop (length prefix + 1) s))"

text \<open>A stand-in for the slug library on the names of the examples: ASCII letters are
  lower-cased, everything else is kept.\<close>

definition lower_ascii :: "string \<Rightarrow> string" where
  "lower_ascii name =
     map (\<lambda>c. case map_of (zip ''ABCDEFGHIJKLMNOPQRSTUVWXYZ'' ''abcdefghijklmnopqrstuvwxyz'') c of
                 Some l \<Rightarrow> l | None \<Rightarrow> c) name"

subsection \<open>Action create\<close>

definition name_of :: "doc \<Rightarrow> string" where
  "name_of entity = (case field entity ''name'' of JStr n \<Rightarrow> n | _ \<Rightarrow> [])"

text \<open>Both reads of the clock give \<open>now\<close>. The broadcast \<^verbatim>\<open>entityChanged\<close> clears caches
  and does not touch the store or the result; it is left out of the handlers.\<close>

definition create_handler ::
  "(string \<Rightarrow> string) \<Rightarrow> int \<Rightarrow> int \<Rightarrow> string \<Rightarrow> string \<Rightarrow> doc \<Rightarrow> store \<Rightarrow> (error + jsval) \<times> store" where
  "create_handler slugify rnd now new_id actor game s =
     (if \<not> validateEntity game then (Inl ValidationError, s)
      else
        let entity = set_field ''slug'' (JStr (make_slug slugify rnd (name_of game))) game;
            entity = set_field ''creator'' (JStr actor) entity;
            entity = set_field ''createdAt'' (JDate now) entity;
            entity = set_field ''updatedAt'' (JDate now) entity
        in (case adapter_insert new_id entity s of
              (doc, s') \<Rightarrow> (Inr (transformResult (transformDocuments (JObj doc))), s')))"

subsection \<open>Action update\<close>

text \<open>The action's parameter schema for \<^verbatim>\<open>game\<close>: \<^verbatim>\<open>name\<close> and \<^verbatim>\<open>description\<close> are
  optional; when present they are strings of at least one character. The schema is not
  strict: other properties pass.\<close>

definition optional_string_min1 :: "jsval \<Rightarrow> bool" where
  "optional_string_min1 v = (case v of JUndefined \<Rightarrow> True | JNull \<Rightarrow> True | _ \<Rightarrow> string_min1 v)"

definition update_params_ok :: "doc \<Rightarrow> bool" where
  "update_params_ok game =
     (optional_string_min1 (field game ''name'') \<and> optional_string_min1 (field game ''description''))"

text \<open>\<^verbatim>\<open>let newData = ctx.params.game; newData.updatedAt = new Date()\<close>: the patch as the
  handler holds it from its first two lines on, and as it is merged.\<close>

definition newData :: "int \<Rightarrow> doc \<Rightarrow> doc" where
  "newData now patch = set_field ''updatedAt'' (JDate now) patch"

definition update_handler :: "int \<Rightarrow> string \<Rightarrow> string \<Rightarrow> doc \<Rightarrow> store \<Rightarrow> (error + jsval) \<times> store" where
  "update_handler now actor i patch s =
     (case getById i s of
        None \<Rightarrow> (Inl NotFound, s)
      | Some game \<Rightarrow>
          if field game ''creator'' \<noteq> JStr actor then (Inl Forbidden, s)
          else (case adapter_updateById (field game ''_id'') (Set (newData now patch)) s of
                  (doc, s') \<Rightarrow> (Inr (transformResult (transformDocuments (js_of_doc doc))), s')))"

text \<open>The action: the parameters are validated before the handler runs.\<close>

definition update_action :: "int \<Rightarrow> string \<Rightarrow> string \<Rightarrow> doc \<Rightarrow> store \<Rightarrow> (error + jsval) \<times> store" where
  "update_action now actor i patch s =
     (if update_params_ok patch then update_handler now actor i patch s
      else (Inl ValidationError, s))"

subsection \<open>Actions list and listByUser\<close>

text \<open>\<^verbatim>\<open>ctx.params\<close> of \<^verbatim>\<open>list\<close> after validation: every parameter is optional, \<open>None\<close>
  is a parameter that was not supplied. \<^verbatim>\<open>tag\<close> is not in the schema; the handler reads
  it all the same.\<close>

record list_params =
  creator :: "string option"
  limit :: "int option"
  offset :: "int option"
  tag :: "string option"

text \<open>\<^verbatim>\<open>ctx.params\<close> of \<^verbatim>\<open>listByUser\<close> after validation: \<^verbatim>\<open>creator\<close> is required.\<close>

record listByUser_params =
  by_creator :: string
  by_limit :: "int option"
  by_offset :: "int option"

text \<open>\<^verbatim>\<open>ctx.params.limit ? Number(ctx.params.limit) : 20\<close> and
  \<^verbatim>\<open>ctx.params.offset ? Number(ctx.params.offset) : 0\<close>.\<close>

definition page_limit :: "int option \<Rightarrow> int" where
  "page_limit l = (case l of Some n \<Rightarrow> if n \<noteq> 0 then n else 20 | None \<Rightarrow> 20)"

definition page_offset :: "int option \<Rightarrow> int" where
  "page_offset l = (case l of Some n \<Rightarrow> if n \<noteq> 0 then n else 0 | None \<Rightarrow> 0)"

text \<open>\<^verbatim>\<open>if (ctx.params.tag) params.query.tagList = { "$in": [ctx.params.tag] }\<close>.\<close>

definition list_query :: "list_params \<Rightarrow> query" where
  "list_query c =
     (case tag c of Some t \<Rightarrow> if t \<noteq> [] then [(''tagList'', In [JStr t])] else []
      | None \<Rightarrow> [])"

text \<open>\<^verbatim>\<open>countParams = Object.assign({}, params)\<close>, then the limit and the offset are set to
  \<^verbatim>\<open>null\<close> where they are truthy.\<close>

definition strip_pagination :: "find_params \<Rightarrow> find_params" where
  "strip_pagination params =
     (let countParams = params;
          countParams = (if p_limit countParams \<noteq> None \<and> p_limit countParams \<noteq> Some 0
                         then countParams\<lparr>p_limit := None\<rparr> else countParams);
          countParams = (if p_offset countParams \<noteq> None \<and> p_offset countParams \<noteq> Some 0
                         then countParams\<lparr>p_offset := None\<rparr> else countParams)
      in countParams)"

text \<open>\<^verbatim>\<open>r.k = v\<close> on a result.\<close>

definition set_prop :: "string \<Rightarrow> jsval \<Rightarrow> jsval \<Rightarrow> jsval" where
  "set_prop k v r = (case r of JObj d \<Rightarrow> JObj (set_field k v d) | _ \<Rightarrow> r)"

definition list_find_params :: "list_params \<Rightarrow> find_params" where
  "list_find_params c =
     \<lparr>p_limit = Some (page_limit (limit c)), p_offset = Some (page_offset (offset c)),
      p_sort = [''-createdAt''], p_populate = [''creator''], p_query = list_query c\<rparr>"

definition list_handler :: "list_params \<Rightarrow> store \<Rightarrow> jsval" where
  "list_handler c s =
     (let params = list_find_params c;
          countParams = strip_pagination params;
          rows = adapter_find params s;
          cnt = adapter_count countParams s;
          docs = transformDocuments (JArr (map JObj rows));
          r = transformResult docs
      in set_prop ''gamesCount'' (JNum (int cnt)) r)"

definition listByUser_find_params :: "listByUser_params \<Rightarrow> find_params" where
  "listByUser_find_params c =
     \<lparr>p_limit = Some (page_limit (by_limit c)), p_offset = Some (page_offset (by_offset c)),
      p_sort = [''-createdAt''], p_populate = [''creator''],
      p_query = [(''game'', Eq (JStr (by_creator c)))]\<rparr>"

definition listByUser_handler :: "listByUser_params \<Rightarrow> store \<Rightarrow> jsval" where
  "listByUser_handler c s =
     (let params = listByUser_find_params c;
          countParams = strip_pagination params;
          rows = adapter_find params s;
          cnt = adapter_count countParams s;
          docs = transformDocuments (JArr (map JObj rows));
          r = transformResult docs
      in set_prop ''commentsCount'' (JNum (int cnt)) r)"

subsection \<open>Cache keys\<close>

text \<open>Modelled from the spec: the key of the Cache Layer (section 3), a deterministic
  composite of the action and, for each configured key, the value read from the request's
  meta (a key that starts with \<^verbatim>\<open>#\<close>) or from its parameters; a parameter that was not
  supplied reads as \<^verbatim>\<open>undefined\<close>. The cacher is missing.\<close>

definition getCacheKey ::
  "string \<Rightarrow> string list \<Rightarrow> (string \<Rightarrow> jsval) \<Rightarrow> (string \<Rightarrow> jsval) \<Rightarrow> string \<times> jsval list" where
  "getCacheKey action keys params meta =
     (action, map (\<lambda>k. case k of c # m \<Rightarrow> if c = CHR ''#'' then meta m else params k
                         | [] \<Rightarrow> params k) keys)"

definition opt_str :: "string option \<Rightarrow> jsval" where
  "opt_str x = (case x of None \<Rightarrow> JUndefined | Some v \<Rightarrow> JStr v)"

definition opt_num :: "int option \<Rightarrow> jsval" where
  "opt_num x = (case x of None \<Rightarrow> JUndefined | Some v \<Rightarrow> JNum v)"

text \<open>\<^verbatim>\<open>ctx.params[k]\<close> and \<^verbatim>\<open>ctx.meta[k]\<close> of a \<^verbatim>\<open>list\<close> request.\<close>

definition list_param :: "list_params \<Rightarrow> string \<Rightarrow> jsval" where
  "list_param c k =
     (if k = ''creator'' then opt_str (creator c)
      else if k = ''limit'' then opt_num (limit c)
      else if k = ''offset'' then opt_num (offset c)
      else if k = ''tag'' then opt_str (tag c)
      else JUndefined)"

definition meta_of :: "string option \<Rightarrow> string \<Rightarrow> jsval" where
  "meta_of userID k = (if k = ''userID'' then opt_str userID else JUndefined)"

text \<open>\<^verbatim>\<open>cache: { keys: ["#userID", "creator", "limit", "offset"] }\<close> of \<^verbatim>\<open>list\<close>.\<close>

definition list_cache_keys :: "string list" where
  "list_cache_keys = [''#userID'', ''creator'', ''limit'', ''offset'']"

definition list_cache_key :: "string option \<Rightarrow> list_params \<Rightarrow> string \<times> jsval list" where
  "list_cache_key userID c = getCacheKey ''games.list'' list_cache_keys (list_param c) (meta_of userID)"

subsection \<open>Action remove\<close>

text \<open>The action's \<^verbatim>\<open>id\<close> is of type \<^verbatim>\<open>any\<close>. The model covers the ids that are
  strings, as a path parameter is: an object would reach the store as a query operator
  and not as a value to equal.\<close>

definition findBySlug :: "string \<Rightarrow> store \<Rightarrow> doc option" where
  "findBySlug slug s = adapter_findOne [(''slug'', Eq (JStr slug))] s"

text \<open>The handler returns what \<^verbatim>\<open>adapter.removeById\<close> resolves to. The Entity Store of
  the spec returns the removed document (that is \<open>js_of_doc\<close>), the action's own comment
  speaks of a count; \<open>report\<close> is that value as a function of the removed document.\<close>

definition remove_handler ::
  "(doc option \<Rightarrow> jsval) \<Rightarrow> string \<Rightarrow> string \<Rightarrow> store \<Rightarrow> (error + jsval) \<times> store" where
  "remove_handler report actor i s =
     (case findBySlug i s of
        None \<Rightarrow> (Inl NotFound, s)
      | Some entity \<Rightarrow>
          if field entity ''creator'' \<noteq> JStr actor then (Inl Forbidden, s)
          else (case adapter_removeById (field entity ''_id'') s of
                  (res, s') \<Rightarrow> (Inr (report res), s')))"

subsection \<open>Example data\<close>

definition chess :: doc where
  "chess = [(''name'', JStr ''Chess''), (''description'', JStr ''A board game''),
            (''slug'', JStr ''chess-abc123''), (''creator'', JStr ''userA''),
            (''createdAt'', JDate 1), (''updatedAt'', JDate 1), (''_id'', JStr ''g1'')]"

definition go :: doc where
  "go = [(''name'', JStr ''Go''), (''description'', JStr ''Stones''),
         (''tagList'', JArr [JStr ''board'']),
         (''slug'', JStr ''go-0z9k2m''), (''creator'', JStr ''userB''),
         (''createdAt'', JDate 2), (''updatedAt'', JDate 2), (''_id'', JStr ''g2'')]"

text \<open>\<open>go\<close> after its owner's update with the patch \<^verbatim>\<open>{slug: "chess-abc123"}\<close> at
  time 5.\<close>

definition go_reslugged :: doc where
  "go_reslugged = [(''name'', JStr ''Go''), (''description'', JStr ''Stones''),
         (''tagList'', JArr [JStr ''board'']),
         (''slug'', JStr ''chess-abc123''), (''creator'', JStr ''userB''),
         (''createdAt'', JDate 2), (''updatedAt'', JDate 5), (''_id'', JStr ''g2'')]"

text \<open>Five games that differ in their \<^verbatim>\<open>_id\<close>, slug and creation time.\<close>

definition game_no :: "string \<Rightarrow> int \<Rightarrow> doc" where
  "game_no i n = [(''name'', JStr ''Chess''), (''description'', JStr ''A board game''),
                  (''slug'', JStr (''chess-'' @ i)), (''creator'', JStr ''userA''),
                  (''createdAt'', JDate n), (''updatedAt'', JDate n), (''_id'', JStr i)]"

definition five_games :: store where
  "five_games = [game_no ''g1'' 1, game_no ''g2'' 2, game_no ''g3'' 3, game_no ''g4'' 4,
                 game_no ''g5'' 5]"

lemmas model_defs =
  field_def obj_field_def set_field_def transformEntity_def matches_def created_time_def
  sort_rows_def adapter_find_def adapter_count_def adapter_findOne_def adapter_insert_def
  set_fields_def getById_def js_of_doc_def settings_fields_def string_min1_def
  validateEntity_def filterFields_def transformDocument_def to_int32_def digits36_def
  toString36_def make_slug_def slug_pattern6_def lower_ascii_def name_of_def
  create_handler_def optional_string_min1_def update_params_ok_def update_handler_def
  update_action_def newData_def page_limit_def page_offset_def list_query_def strip_pagination_def
  set_prop_def list_find_params_def list_handler_def listByUser_find_params_def
  listByUser_handler_def getCacheKey_def opt_str_def opt_num_def list_param_def meta_of_def
  list_cache_keys_def list_cache_key_def findBySlug_def remove_handler_def

section \<open>Properties\<close>

subsection \<open>Reading and writing properties\<close>

lemma field_set_field_same: "field (set_field k v d) k = v"
  by (simp add: field_def set_field_def update_conv')

lemma field_set_field_other: "k' \<noteq> k \<Longrightarrow> field (set_field k v d) k' = field d k'"
  by (simp add: field_def set_field_def update_conv')

subsection \<open>The partial merge\<close>

lemma keys_set_field: "fst ` set (set_field k v d) = insert k (fst ` set d)"
  by (simp add: set_field_def dom_update)

lemma field_set_fields_other: "k \<notin> fst ` set patch \<Longrightarrow> field (set_fields d patch) k = field d k"
  unfolding set_fields_def
proof (induction patch arbitrary: d)
  case Nil
  then show ?case by simp
next
  case (Cons a patch)
  obtain k' v' where a: "a = (k', v')" by (cases a)
  from Cons.prems a have "k \<noteq> k'" and "k \<notin> fst ` set patch" by auto
  then show ?case using Cons.IH [of "set_field k' v' d"] a
    by (simp add: field_set_field_other)
qed

text \<open>A property that the patch does not name has the same value in every document of
  the store after \<^verbatim>\<open>updateById\<close> as before.\<close>

lemma updateById_column:
  "k \<notin> fst ` set patch \<Longrightarrow>
   map (\<lambda>d. field d k) (snd (adapter_updateById i (Set patch) s)) = map (\<lambda>d. field d k) s"
  by (induction s) (auto simp: field_set_fields_other split: prod.splits)

lemma updateById_column_eq:
  "k \<notin> fst ` set patch \<Longrightarrow> adapter_updateById i (Set patch) s = (r, s') \<Longrightarrow>
   map (\<lambda>d. field d k) s' = map (\<lambda>d. field d k) s"
  using updateById_column [of k patch i s] by simp

lemma update_handler_column:
  assumes "k \<notin> fst ` set patch" and "k \<noteq> ''updatedAt''"
  shows "map (\<lambda>d. field d k) (snd (update_handler now actor i patch s)) = map (\<lambda>d. field d k) s"
proof -
  have "k \<notin> fst ` set (newData now patch)"
    using assms by (simp add: newData_def keys_set_field)
  then show ?thesis
    by (auto simp: update_handler_def split: option.splits prod.splits
             dest: updateById_column_eq)
qed

lemma update_action_column:
  assumes "k \<notin> fst ` set patch" and "k \<noteq> ''updatedAt''"
  shows "map (\<lambda>d. field d k) (snd (update_action now actor i patch s)) = map (\<lambda>d. field d k) s"
  using update_handler_column [OF assms] by (simp add: update_action_def)

subsection \<open>update: ownership\<close>

text \<open>
  Claim C5. For every stored game and every actor whose id differs from the game's
  creator, update fails with Forbidden and leaves the store as it was. The handler does
  so for every patch; the action, which validates the patch first, leaves the store as it
  was for every patch and fails with Forbidden for every patch that passes validation.
\<close>

theorem update_non_owner_forbidden:
  assumes "getById i s = Some game" and "field game ''creator'' \<noteq> JStr actor"
  shows "update_handler now actor i patch s = (Inl Forbidden, s)
         \<and> snd (update_action now actor i patch s) = s
         \<and> (update_params_ok patch \<longrightarrow> update_action now actor i patch s = (Inl Forbidden, s))"
  using assms by (simp add: update_action_def update_handler_def Let_def)

theorem update_non_owner_forbidden_witness:
  "getById ''g1'' [chess, go] = Some chess \<and> field chess ''creator'' \<noteq> JStr ''userB''
   \<and> update_params_ok [(''name'', JStr ''X'')]
   \<and> update_action 5 ''userB'' ''g1'' [(''name'', JStr ''X'')] [chess, go] = (Inl Forbidden, [chess, go])"
proof -
  have a: "getById ''g1'' [chess, go] = Some chess"
    by (simp add: getById_def field_def chess_def)
  have b: "field chess ''creator'' \<noteq> JStr ''userB''"
    by (simp add: field_def chess_def)
  have c: "update_params_ok [(''name'', JStr ''X'')]"
    by (simp add: update_params_ok_def optional_string_min1_def string_min1_def field_def)
  from update_non_owner_forbidden [OF a b, of 5 "[(''name'', JStr ''X'')]"] a b c
  show ?thesis by simp
qed

subsection \<open>update: the creator\<close>

text \<open>
  The claim that no accepted patch changes the creator fails: the schema of the patch is
  not strict, so the owner's patch \<^verbatim>\<open>{creator: "userB"}\<close> passes validation, and the merge
  writes it.
\<close>

theorem update_creator_counterexample:
  "update_params_ok [(''creator'', JStr ''userB'')]
   \<and> map (\<lambda>d. field d ''creator'') [chess] = [JStr ''userA'']
   \<and> update_action 5 ''userA'' ''g1'' [(''creator'', JStr ''userB'')] [chess]
       = (Inr (JObj [(''game'', JObj [(''_id'', JStr ''g1''), (''name'', JStr ''Chess''),
                       (''description'', JStr ''A board game''), (''createdAt'', JDate 1),
                       (''updatedAt'', JDate 5), (''creator'', JStr ''userB'')])]),
          [[(''name'', JStr ''Chess''), (''description'', JStr ''A board game''),
            (''slug'', JStr ''chess-abc123''), (''creator'', JStr ''userB''),
            (''createdAt'', JDate 1), (''updatedAt'', JDate 5), (''_id'', JStr ''g1'')]])"
  by (simp add: model_defs chess_def)

text \<open>
  Claim C3, amended. For every successful update whose patch has no \<^verbatim>\<open>creator\<close> property,
  the creator of every stored entity, the updated one included, is after the operation
  what it was before.
\<close>

theorem update_keeps_creator:
  assumes "update_action now actor i patch s = (Inr r, s')"
      and "''creator'' \<notin> fst ` set patch"
  shows "map (\<lambda>d. field d ''creator'') s' = map (\<lambda>d. field d ''creator'') s"
  using update_action_column [of "''creator''" patch now actor i s] assms by simp

theorem update_keeps_creator_witness:
  "update_action 5 ''userA'' ''g1'' [(''name'', JStr ''X'')] [chess, go]
     = (Inr (JObj [(''game'', JObj [(''_id'', JStr ''g1''), (''name'', JStr ''X''),
                       (''description'', JStr ''A board game''), (''createdAt'', JDate 1),
                       (''updatedAt'', JDate 5), (''creator'', JStr ''userA'')])]),
        [set_fields chess [(''name'', JStr ''X''), (''updatedAt'', JDate 5)], go])
   \<and> ''creator'' \<notin> fst ` set [(''name'', JStr ''X'')]
   \<and> map (\<lambda>d. field d ''creator'') [set_fields chess [(''name'', JStr ''X''), (''updatedAt'', JDate 5)], go]
       = [JStr ''userA'', JStr ''userB'']"
proof -
  have a: "update_action 5 ''userA'' ''g1'' [(''name'', JStr ''X'')] [chess, go]
     = (Inr (JObj [(''game'', JObj [(''_id'', JStr ''g1''), (''name'', JStr ''X''),
                       (''description'', JStr ''A board game''), (''createdAt'', JDate 1),
                       (''updatedAt'', JDate 5), (''creator'', JStr ''userA'')])]),
        [set_fields chess [(''name'', JStr ''X''), (''updatedAt'', JDate 5)], go])"
    by (simp add: model_defs chess_def go_def)
  have b: "''creator'' \<notin> fst ` set [(''name'', JStr ''X'')]" by simp
  have c: "map (\<lambda>d. field d ''creator'') [chess, go] = [JStr ''userA'', JStr ''userB'']"
    by (simp add: field_def chess_def go_def)
  from update_keeps_creator [OF a b] a b c show ?thesis by simp
qed

subsection \<open>update: the partial merge\<close>

text \<open>Where \<^verbatim>\<open>find\<close> stops, and what \<^verbatim>\<open>updateById\<close> and \<^verbatim>\<open>removeById\<close> do there.\<close>

lemma find_split:
  "find P s = Some g \<Longrightarrow> \<exists>pre post. s = pre @ g # post \<and> P g \<and> list_all (\<lambda>d. \<not> P d) pre"
proof (induction s)
  case Nil
  then show ?case by simp
next
  case (Cons d s)
  show ?case
  proof (cases "P d")
    case True
    with Cons.prems have "d = g" by simp
    with True have "d # s = [] @ g # s \<and> P g \<and> list_all (\<lambda>d. \<not> P d) []" by simp
    then show ?thesis by blast
  next
    case False
    with Cons.prems have "find P s = Some g" by simp
    from Cons.IH [OF this] obtain pre post
      where "s = pre @ g # post" "P g" "list_all (\<lambda>d. \<not> P d) pre" by blast
    with False have "d # s = (d # pre) @ g # post \<and> P g \<and> list_all (\<lambda>d. \<not> P d) (d # pre)"
      by simp
    then show ?thesis by blast
  qed
qed

lemma updateById_at:
  "list_all (\<lambda>d. field d ''_id'' \<noteq> i) pre \<Longrightarrow> field g ''_id'' = i \<Longrightarrow>
   adapter_updateById i u (pre @ g # post) = (Some (apply_update u g), pre @ apply_update u g # post)"
  by (induction pre) auto

lemma removeById_at:
  "list_all (\<lambda>d. field d ''_id'' \<noteq> i) pre \<Longrightarrow> field g ''_id'' = i \<Longrightarrow>
   adapter_removeById i (pre @ g # post) = (Some g, pre @ post)"
  by (induction pre) auto

lemma newData_keys: "fst ` set (newData now patch) = insert ''updatedAt'' (fst ` set patch)"
  by (simp add: newData_def keys_set_field)

text \<open>The handler stamps every patch: the patch \<^verbatim>\<open>{description: "x"}\<close> is merged as
  \<^verbatim>\<open>{description: "x", updatedAt: now}\<close>.\<close>

lemma update_stamps_updatedAt:
  "newData 5 [(''description'', JStr ''x'')] = [(''description'', JStr ''x''), (''updatedAt'', JDate 5)]
   \<and> map (\<lambda>d. field d ''updatedAt'') [chess] = [JDate 1]
   \<and> map (\<lambda>d. field d ''updatedAt'')
         (snd (update_action 5 ''userA'' ''g1'' [(''description'', JStr ''x'')] [chess])) = [JDate 5]"
  by (simp add: model_defs chess_def)

text \<open>
  Claim C6. update applies its patch as a partial merge: after a successful update of a
  stored game, every field of that game that is not present in the patch keeps its prior
  value, and every other document of the store is what it was. The patch is the one the
  handler merges, \<open>newData\<close>: the caller's patch with \<^verbatim>\<open>updatedAt\<close> set by the handler's
  second line. In particular the patch \<^verbatim>\<open>{description: "x"}\<close> leaves \<^verbatim>\<open>name\<close> unchanged.
\<close>

theorem update_partial_merge:
  assumes "update_action now actor i patch s = (Inr r, s')"
      and "k \<notin> fst ` set (newData now patch)"
  shows "\<exists>pre game post. getById i s = Some game \<and> s = pre @ game # post
           \<and> s' = pre @ set_fields game (newData now patch) # post
           \<and> field (set_fields game (newData now patch)) k = field game k
           \<and> fst ` set (newData now patch) = insert ''updatedAt'' (fst ` set patch)"
proof -
  from assms(1) have h: "update_handler now actor i patch s = (Inr r, s')"
    by (simp add: update_action_def split: if_splits)
  then obtain game where g: "getById i s = Some game"
    by (cases "getById i s") (auto simp: update_handler_def)
  from g obtain pre post where sp: "s = pre @ game # post"
      and gi: "field game ''_id'' = JStr i"
      and pi: "list_all (\<lambda>d. \<not> field d ''_id'' = JStr i) pre"
    unfolding getById_def by (blast dest: find_split)
  have upd: "adapter_updateById (field game ''_id'') (Set (newData now patch)) s
             = (Some (set_fields game (newData now patch)),
                pre @ set_fields game (newData now patch) # post)"
    using updateById_at [of "JStr i" pre game "Set (newData now patch)" post] pi gi sp by simp
  from h g upd have "s' = pre @ set_fields game (newData now patch) # post"
    by (simp add: update_handler_def split: if_splits)
  moreover have "field (set_fields game (newData now patch)) k = field game k"
    using assms(2) by (rule field_set_fields_other)
  ultimately show ?thesis using g sp newData_keys by blast
qed

theorem update_partial_merge_witness:
  "update_action 5 ''userA'' ''g1'' [(''description'', JStr ''x'')] [go, chess]
     = (Inr (JObj [(''game'', JObj [(''_id'', JStr ''g1''), (''name'', JStr ''Chess''),
                       (''description'', JStr ''x''), (''createdAt'', JDate 1),
                       (''updatedAt'', JDate 5), (''creator'', JStr ''userA'')])]),
        [go, set_fields chess [(''description'', JStr ''x''), (''updatedAt'', JDate 5)]])
   \<and> ''name'' \<notin> fst ` set (newData 5 [(''description'', JStr ''x'')])
   \<and> getById ''g1'' [go, chess] = Some chess
   \<and> field chess ''name'' = JStr ''Chess''
   \<and> field (set_fields chess [(''description'', JStr ''x''), (''updatedAt'', JDate 5)]) ''name'' = JStr ''Chess''
   \<and> field (set_fields chess [(''description'', JStr ''x''), (''updatedAt'', JDate 5)]) ''description'' = JStr ''x''"
proof -
  have a: "update_action 5 ''userA'' ''g1'' [(''description'', JStr ''x'')] [go, chess]
     = (Inr (JObj [(''game'', JObj [(''_id'', JStr ''g1''), (''name'', JStr ''Chess''),
                       (''description'', JStr ''x''), (''createdAt'', JDate 1),
                       (''updatedAt'', JDate 5), (''creator'', JStr ''userA'')])]),
        [go, set_fields chess [(''description'', JStr ''x''), (''updatedAt'', JDate 5)]])"
    by (simp add: model_defs chess_def go_def)
  have f: "newData 5 [(''description'', JStr ''x'')]
           = [(''description'', JStr ''x''), (''updatedAt'', JDate 5)]"
    by (simp add: newData_def set_field_def)
  have b: "''name'' \<notin> fst ` set (newData 5 [(''description'', JStr ''x'')])"
    by (simp add: f)
  have d: "getById ''g1'' [go, chess] = Some chess"
    by (simp add: getById_def field_def chess_def go_def)
  have e: "field chess ''name'' = JStr ''Chess''"
    by (simp add: field_def chess_def)
  have g: "field (set_fields chess [(''description'', JStr ''x''), (''updatedAt'', JDate 5)]) ''description'' = JStr ''x''"
    by (simp add: field_def set_fields_def set_field_def chess_def)
  from update_partial_merge [OF a b] obtain pre game post
    where "getById ''g1'' [go, chess] = Some game"
      and "field (set_fields game (newData 5 [(''description'', JStr ''x'')])) ''name'' = field game ''name''"
    by blast
  with d e f have "field (set_fields chess [(''description'', JStr ''x''), (''updatedAt'', JDate 5)]) ''name''
                   = JStr ''Chess''"
    by simp
  with a b d e g show ?thesis by (intro conjI)
qed

subsection \<open>remove\<close>

lemma matches_slug: "matches [(''slug'', Eq v)] d = (field d ''slug'' = v)"
  by (simp add: matches_def)

lemma find_None_list_all: "find P s = None \<longleftrightarrow> list_all (\<lambda>d. \<not> P d) s"
  by (induction s) auto

lemma findBySlug_None: "findBySlug i s = None \<longleftrightarrow> list_all (\<lambda>d. field d ''slug'' \<noteq> JStr i) s"
  by (simp add: findBySlug_def adapter_findOne_def find_None_list_all matches_slug)

lemma findBySlug_split:
  assumes "findBySlug i s = Some e"
  shows "\<exists>pre post. s = pre @ e # post \<and> field e ''slug'' = JStr i
           \<and> list_all (\<lambda>d. field d ''slug'' \<noteq> JStr i) pre"
  using find_split [of "matches [(''slug'', Eq (JStr i))]" s e] assms
  by (simp add: findBySlug_def adapter_findOne_def matches_slug)

text \<open>\<^verbatim>\<open>removeById\<close> deletes the first document with the id, when there is one.\<close>

lemma removeById_first:
  assumes "e \<in> set s"
  shows "\<exists>pre d post. s = pre @ d # post \<and> field d ''_id'' = field e ''_id''
           \<and> list_all (\<lambda>x. field x ''_id'' \<noteq> field e ''_id'') pre
           \<and> adapter_removeById (field e ''_id'') s = (Some d, pre @ post)"
proof -
  from assms have "\<not> list_all (\<lambda>d. \<not> field d ''_id'' = field e ''_id'') s"
    by (auto simp: list_all_iff)
  then obtain d where "find (\<lambda>d. field d ''_id'' = field e ''_id'') s = Some d"
    by (cases "find (\<lambda>d. field d ''_id'' = field e ''_id'') s") (auto simp: find_None_list_all)
  from find_split [OF this] obtain pre post where sp: "s = pre @ d # post"
      and di: "field d ''_id'' = field e ''_id''"
      and pre: "list_all (\<lambda>x. field x ''_id'' \<noteq> field e ''_id'') pre"
    by blast
  from removeById_at [OF pre di, of post] sp
  have "adapter_removeById (field e ''_id'') s = (Some d, pre @ post)" by simp
  with sp di pre show ?thesis by blast
qed

lemma remove_success:
  assumes f: "findBySlug i s = Some e" and own: "field e ''creator'' = JStr actor"
  shows "\<exists>pre d post. s = pre @ d # post \<and> field d ''_id'' = field e ''_id''
           \<and> list_all (\<lambda>x. field x ''_id'' \<noteq> field e ''_id'') pre
           \<and> remove_handler report actor i s = (Inr (report (Some d)), pre @ post)"
proof -
  from findBySlug_split [OF f] have "e \<in> set s" by auto
  from removeById_first [OF this] obtain pre d post where sp: "s = pre @ d # post"
      and di: "field d ''_id'' = field e ''_id''"
      and pre: "list_all (\<lambda>x. field x ''_id'' \<noteq> field e ''_id'') pre"
      and rm: "adapter_removeById (field e ''_id'') s = (Some d, pre @ post)"
    by blast
  from f own rm have "remove_handler report actor i s = (Inr (report (Some d)), pre @ post)"
    by (simp add: remove_handler_def)
  with sp di pre show ?thesis by blast
qed

lemma remove_owner:
  assumes f: "findBySlug i s = Some e"
      and own: "field e ''creator'' = JStr actor"
      and ids: "distinct (map (\<lambda>d. field d ''_id'') s)"
  shows "remove_handler report actor i s = (Inr (report (Some e)), remove1 e s)
         \<and> set (remove1 e s) = set s - {e}
         \<and> (findBySlug i (remove1 e s) = None
              \<longleftrightarrow> list_all (\<lambda>d. d = e \<or> field d ''slug'' \<noteq> JStr i) s)"
proof -
  from findBySlug_split [OF f] obtain pre post where sp: "s = pre @ e # post"
      and ei: "field e ''slug'' = JStr i" and pre: "list_all (\<lambda>d. field d ''slug'' \<noteq> JStr i) pre"
    by blast
  from ids sp have "field e ''_id'' \<notin> (\<lambda>d. field d ''_id'') ` set pre"
    by auto
  then have pre_ids: "list_all (\<lambda>d. field d ''_id'' \<noteq> field e ''_id'') pre"
    unfolding list_all_iff by (metis imageI)
  from ids sp have post_ids: "field e ''_id'' \<notin> (\<lambda>d. field d ''_id'') ` set post"
    by auto
  from pre ei have notin_pre: "e \<notin> set pre" by (auto simp: list_all_iff)
  from post_ids have notin_post: "e \<notin> set post" by auto
  have rm: "remove1 e s = pre @ post"
    using sp notin_pre by (simp add: remove1_append)
  have "adapter_removeById (field e ''_id'') s = (Some e, pre @ post)"
    using removeById_at [OF pre_ids, of e post] sp by simp
  with f own rm have "remove_handler report actor i s = (Inr (report (Some e)), remove1 e s)"
    by (simp add: remove_handler_def)
  moreover have "set (remove1 e s) = set s - {e}"
    using rm sp notin_pre notin_post by auto
  moreover have "findBySlug i (remove1 e s) = None
                 \<longleftrightarrow> list_all (\<lambda>d. d = e \<or> field d ''slug'' \<noteq> JStr i) s"
  proof -
    have "findBySlug i (remove1 e s) = None \<longleftrightarrow> list_all (\<lambda>d. field d ''slug'' \<noteq> JStr i) post"
      using pre by (simp add: rm findBySlug_None)
    moreover have "list_all (\<lambda>d. d = e \<or> field d ''slug'' \<noteq> JStr i) s
                   \<longleftrightarrow> list_all (\<lambda>d. field d ''slug'' \<noteq> JStr i) post"
      using pre notin_post unfolding sp by (auto simp: list_all_iff)
    ultimately show ?thesis by simp
  qed
  ultimately show ?thesis by simp
qed

text \<open>
  The claim that a lookup of the slug after a successful remove finds nothing fails:
  nothing keeps slugs unique. The owner of \<open>go\<close> gives it the slug of \<open>chess\<close> by a
  valid update; the owner of \<open>chess\<close> then removes \<open>chess\<close> by that slug, and the slug
  still resolves, to \<open>go\<close>.
\<close>

theorem remove_leaves_slug_counterexample:
  "update_params_ok [(''slug'', JStr ''chess-abc123'')]
   \<and> snd (update_action 5 ''userB'' ''g2'' [(''slug'', JStr ''chess-abc123'')] [chess, go])
       = [chess, go_reslugged]
   \<and> remove_handler js_of_doc ''userA'' ''chess-abc123'' [chess, go_reslugged]
       = (Inr (JObj chess), [go_reslugged])
   \<and> findBySlug ''chess-abc123'' [go_reslugged] = Some go_reslugged"
  by (simp add: model_defs chess_def go_def go_reslugged_def)

text \<open>
  Claim C8, amended. For a slug that is a string, remove fails with NotFound when no
  stored entity has the slug, and with Forbidden when the first stored entity with the
  slug has another creator than the actor; the store is unchanged in both cases.
  Otherwise it deletes by internal id, the first document with the resolved entity's
  \<^verbatim>\<open>_id\<close>, and returns what the store reports for that document. In a store whose ids are
  unique that document is the resolved entity and nothing else is deleted, and a later
  lookup of the slug finds nothing exactly when no other stored entity has the slug.
\<close>

theorem remove_by_slug:
  "(list_all (\<lambda>d. field d ''slug'' \<noteq> JStr i) s \<longrightarrow> remove_handler report actor i s = (Inl NotFound, s))
   \<and> (\<forall>e. findBySlug i s = Some e \<longrightarrow> e \<in> set s \<and> field e ''slug'' = JStr i)
   \<and> (\<forall>e. findBySlug i s = Some e \<and> field e ''creator'' \<noteq> JStr actor
          \<longrightarrow> remove_handler report actor i s = (Inl Forbidden, s))
   \<and> (\<forall>e. findBySlug i s = Some e \<and> field e ''creator'' = JStr actor
          \<longrightarrow> (\<exists>pre d post. s = pre @ d # post \<and> field d ''_id'' = field e ''_id''
                \<and> list_all (\<lambda>x. field x ''_id'' \<noteq> field e ''_id'') pre
                \<and> remove_handler report actor i s = (Inr (report (Some d)), pre @ post)))
   \<and> (\<forall>e. findBySlug i s = Some e \<and> field e ''creator'' = JStr actor
            \<and> distinct (map (\<lambda>d. field d ''_id'') s)
          \<longrightarrow> remove_handler report actor i s = (Inr (report (Some e)), remove1 e s)
              \<and> set (remove1 e s) = set s - {e}
              \<and> (findBySlug i (remove1 e s) = None
                   \<longleftrightarrow> list_all (\<lambda>d. d = e \<or> field d ''slug'' \<noteq> JStr i) s))"
proof (intro conjI allI impI)
  assume "list_all (\<lambda>d. field d ''slug'' \<noteq> JStr i) s"
  then have "findBySlug i s = None" by (simp add: findBySlug_None)
  then show "remove_handler report actor i s = (Inl NotFound, s)"
    by (simp add: remove_handler_def)
next
  fix e assume "findBySlug i s = Some e"
  from findBySlug_split [OF this] show "e \<in> set s" by auto
next
  fix e assume "findBySlug i s = Some e"
  from findBySlug_split [OF this] show "field e ''slug'' = JStr i" by auto
next
  fix e assume "findBySlug i s = Some e \<and> field e ''creator'' \<noteq> JStr actor"
  then show "remove_handler report actor i s = (Inl Forbidden, s)"
    by (simp add: remove_handler_def)
next
  fix e assume "findBySlug i s = Some e \<and> field e ''creator'' = JStr actor"
  then show "\<exists>pre d post. s = pre @ d # post \<and> field d ''_id'' = field e ''_id''
                \<and> list_all (\<lambda>x. field x ''_id'' \<noteq> field e ''_id'') pre
                \<and> remove_handler report actor i s = (Inr (report (Some d)), pre @ post)"
    using remove_success [of i s e actor report] by blast
next
  fix e
  assume h: "findBySlug i s = Some e \<and> field e ''creator'' = JStr actor
      \<and> distinct (map (\<lambda>d. field d ''_id'') s)"
  then have r: "remove_handler report actor i s = (Inr (report (Some e)), remove1 e s)
         \<and> set (remove1 e s) = set s - {e}
         \<and> (findBySlug i (remove1 e s) = None
              \<longleftrightarrow> list_all (\<lambda>d. d = e \<or> field d ''slug'' \<noteq> JStr i) s)"
    using remove_owner [of i s e actor report] by blast
  from r show "remove_handler report actor i s = (Inr (report (Some e)), remove1 e s)" by simp
  from r show "set (remove1 e s) = set s - {e}" by simp
  from r show "findBySlug i (remove1 e s) = None
                 \<longleftrightarrow> list_all (\<lambda>d. d = e \<or> field d ''slug'' \<noteq> JStr i) s" by simp
qed

theorem remove_by_slug_witness:
  "remove_handler js_of_doc ''userA'' ''chess-zzzzzz'' [go, chess] = (Inl NotFound, [go, chess])
   \<and> findBySlug ''chess-abc123'' [go, chess] = Some chess
   \<and> remove_handler js_of_doc ''userB'' ''chess-abc123'' [go, chess] = (Inl Forbidden, [go, chess])
   \<and> distinct (map (\<lambda>d. field d ''_id'') [go, chess])
   \<and> list_all (\<lambda>d. d = chess \<or> field d ''slug'' \<noteq> JStr ''chess-abc123'') [go, chess]
   \<and> remove_handler js_of_doc ''userA'' ''chess-abc123'' [go, chess] = (Inr (JObj chess), [go])
   \<and> findBySlug ''chess-abc123'' [go] = None"
proof -
  have none: "list_all (\<lambda>d. field d ''slug'' \<noteq> JStr ''chess-zzzzzz'') [go, chess]"
    by (simp add: field_def chess_def go_def)
  have f: "findBySlug ''chess-abc123'' [go, chess] = Some chess"
    by (simp add: findBySlug_def adapter_findOne_def matches_slug field_def chess_def go_def)
  have nb: "field chess ''creator'' \<noteq> JStr ''userB''" by (simp add: field_def chess_def)
  have ow: "field chess ''creator'' = JStr ''userA''" by (simp add: field_def chess_def)
  have ids: "distinct (map (\<lambda>d. field d ''_id'') [go, chess])"
    by (simp add: field_def chess_def go_def)
  have others: "list_all (\<lambda>d. d = chess \<or> field d ''slug'' \<noteq> JStr ''chess-abc123'') [go, chess]"
    by (simp add: field_def go_def)
  have ne: "go \<noteq> chess" by (simp add: chess_def go_def)
  have r1: "remove1 chess [go, chess] = [go]" using ne by simp
  have rep: "js_of_doc (Some chess) = JObj chess" by (simp add: js_of_doc_def)
  note t1 = remove_by_slug [of "''chess-zzzzzz''" "[go, chess]" js_of_doc "''userA''"]
  note t2 = remove_by_slug [of "''chess-abc123''" "[go, chess]" js_of_doc "''userB''"]
  note t3 = remove_by_slug [of "''chess-abc123''" "[go, chess]" js_of_doc "''userA''"]
  from t1 none have a: "remove_handler js_of_doc ''userA'' ''chess-zzzzzz'' [go, chess] = (Inl NotFound, [go, chess])"
    by blast
  from t2 f nb have b: "remove_handler js_of_doc ''userB'' ''chess-abc123'' [go, chess] = (Inl Forbidden, [go, chess])"
    by blast
  from t3 f ow ids
  have c: "remove_handler js_of_doc ''userA'' ''chess-abc123'' [go, chess]
             = (Inr (js_of_doc (Some chess)), remove1 chess [go, chess])
           \<and> (findBySlug ''chess-abc123'' (remove1 chess [go, chess]) = None
                \<longleftrightarrow> list_all (\<lambda>d. d = chess \<or> field d ''slug'' \<noteq> JStr ''chess-abc123'') [go, chess])"
    by blast
  with others r1 rep
  have c': "remove_handler js_of_doc ''userA'' ''chess-abc123'' [go, chess] = (Inr (JObj chess), [go])"
    and c'': "findBySlug ''chess-abc123'' [go] = None"
    by simp_all
  from a f b ids others c' c'' show ?thesis by (intro conjI)
qed

subsection \<open>list and listByUser: pagination and count\<close>

lemma page_limit_nonzero: "page_limit l \<noteq> 0"
  by (simp add: page_limit_def split: option.splits)

lemma strip_list_find_params:
  "strip_pagination (list_find_params c)
   = (list_find_params c)\<lparr>p_limit := None,
        p_offset := (if page_offset (offset c) = 0 then Some 0 else None)\<rparr>"
  by (simp add: strip_pagination_def list_find_params_def Let_def page_limit_nonzero)

lemma strip_listByUser_find_params:
  "strip_pagination (listByUser_find_params c)
   = (listByUser_find_params c)\<lparr>p_limit := None,
        p_offset := (if page_offset (by_offset c) = 0 then Some 0 else None)\<rparr>"
  by (simp add: strip_pagination_def listByUser_find_params_def Let_def page_limit_nonzero)

lemma length_sort_rows: "length (sort_rows keys rows) = length rows"
  by (simp add: sort_rows_def)

lemma count_stripped:
  "p_limit p = None \<Longrightarrow> p_offset p = None \<or> p_offset p = Some 0 \<Longrightarrow>
   adapter_count p s = length (filter (matches (p_query p)) s)"
  by (auto simp: adapter_count_def adapter_find_def Let_def length_sort_rows)

lemma list_count: 
  "adapter_count (strip_pagination (list_find_params c)) s = length (filter (matches (list_query c)) s)"
proof -
  have "p_query (strip_pagination (list_find_params c)) = list_query c"
    by (simp add: strip_list_find_params) (simp add: list_find_params_def)
  moreover have "p_limit (strip_pagination (list_find_params c)) = None"
    by (simp add: strip_list_find_params)
  moreover have "p_offset (strip_pagination (list_find_params c)) = None
                 \<or> p_offset (strip_pagination (list_find_params c)) = Some 0"
    by (simp add: strip_list_find_params)
  ultimately show ?thesis using count_stripped by metis
qed

lemma transform_rows:
  "transformResult (transformDocuments (JArr (map JObj rows)))
   = JObj [(''games'', JArr (map (\<lambda>d. JObj (filterFields settings_fields d)) rows))]"
  by (simp add: transformDocument_def transformEntity_def comp_def)

lemma list_handler_eq:
  "list_handler c s
   = JObj [(''games'', JArr (map (\<lambda>d. JObj (filterFields settings_fields d))
                                 (adapter_find (list_find_params c) s))),
           (''gamesCount'', JNum (int (length (filter (matches (list_query c)) s))))]"
  unfolding list_handler_def Let_def list_count transform_rows
  by (simp add: set_prop_def set_field_def)

lemma list_rows:
  "adapter_find (list_find_params c) s
   = (let rows = sort_rows [''-createdAt''] (filter (matches (list_query c)) s);
          rows = (if 0 < page_offset (offset c) then drop (nat (page_offset (offset c))) rows else rows)
      in if 0 < page_limit (limit c) then take (nat (page_limit (limit c))) rows else rows)"
  by (simp add: adapter_find_def list_find_params_def Let_def)

lemma listByUser_count: 
  "adapter_count (strip_pagination (listByUser_find_params c)) s
   = length (filter (\<lambda>d. field d ''game'' = JStr (by_creator c)) s)"
proof -
  have "p_query (strip_pagination (listByUser_find_params c)) = [(''game'', Eq (JStr (by_creator c)))]"
    by (simp add: strip_listByUser_find_params) (simp add: listByUser_find_params_def)
  moreover have "p_limit (strip_pagination (listByUser_find_params c)) = None"
    by (simp add: strip_listByUser_find_params)
  moreover have "p_offset (strip_pagination (listByUser_find_params c)) = None
                 \<or> p_offset (strip_pagination (listByUser_find_params c)) = Some 0"
    by (simp add: strip_listByUser_find_params)
  ultimately have "adapter_count (strip_pagination (listByUser_find_params c)) s
     = length (filter (matches [(''game'', Eq (JStr (by_creator c)))]) s)"
    using count_stripped by metis
  moreover have "matches [(''game'', Eq (JStr (by_creator c)))]
                 = (\<lambda>d. field d ''game'' = JStr (by_creator c))"
    by (rule ext) (simp add: matches_def)
  ultimately show ?thesis by simp
qed

lemma listByUser_handler_eq:
  "listByUser_handler c s
   = JObj [(''games'', JArr (map (\<lambda>d. JObj (filterFields settings_fields d))
                                 (adapter_find (listByUser_find_params c) s))),
           (''commentsCount'', JNum (int (length (filter (\<lambda>d. field d ''game'' = JStr (by_creator c)) s))))]"
  unfolding listByUser_handler_def Let_def listByUser_count transform_rows
  by (simp add: set_prop_def set_field_def)

lemma list_find_params_limit0:
  "list_find_params (c\<lparr>limit := Some 0\<rparr>) = (list_find_params c)\<lparr>p_limit := Some 20\<rparr>"
  "list_find_params (c\<lparr>limit := None\<rparr>) = (list_find_params c)\<lparr>p_limit := Some 20\<rparr>"
  "list_find_params (c\<lparr>limit := Some 20\<rparr>) = (list_find_params c)\<lparr>p_limit := Some 20\<rparr>"
  "list_find_params (c\<lparr>offset := Some 0\<rparr>) = (list_find_params c)\<lparr>p_offset := Some 0\<rparr>"
  "list_find_params (c\<lparr>offset := None\<rparr>) = (list_find_params c)\<lparr>p_offset := Some 0\<rparr>"
  by (simp_all add: list_find_params_def page_limit_def page_offset_def list_query_def)

lemma listByUser_find_params_limit0:
  "listByUser_find_params (u\<lparr>by_limit := Some 0\<rparr>) = (listByUser_find_params u)\<lparr>p_limit := Some 20\<rparr>"
  "listByUser_find_params (u\<lparr>by_limit := None\<rparr>) = (listByUser_find_params u)\<lparr>p_limit := Some 20\<rparr>"
  "listByUser_find_params (u\<lparr>by_limit := Some 20\<rparr>) = (listByUser_find_params u)\<lparr>p_limit := Some 20\<rparr>"
  "listByUser_find_params (u\<lparr>by_offset := Some 0\<rparr>) = (listByUser_find_params u)\<lparr>p_offset := Some 0\<rparr>"
  "listByUser_find_params (u\<lparr>by_offset := None\<rparr>) = (listByUser_find_params u)\<lparr>p_offset := Some 0\<rparr>"
  by (simp_all add: listByUser_find_params_def page_limit_def page_offset_def)

text \<open>
  Claim C7. For every list call the count in the result comes from the filter of the row
  fetch with the limit and the offset removed: it is the number of all stored entities
  that match the filter, whatever the pagination, while the rows are the page of the
  sorted matching entities. With limit 2 and offset 0 against 5 matching entities the
  result has exactly 2 items and a count of 5.
\<close>

theorem list_count_without_pagination:
  "obj_field (list_handler c s) ''gamesCount'' = JNum (int (length (filter (matches (list_query c)) s)))
   \<and> obj_field (list_handler c s) ''games''
       = JArr (map (\<lambda>d. JObj (filterFields settings_fields d)) (adapter_find (list_find_params c) s))
   \<and> adapter_find (list_find_params c) s
       = (let rows = sort_rows [''-createdAt''] (filter (matches (list_query c)) s);
              rows = (if 0 < page_offset (offset c) then drop (nat (page_offset (offset c))) rows else rows)
          in if 0 < page_limit (limit c) then take (nat (page_limit (limit c))) rows else rows)
   \<and> adapter_count (strip_pagination (list_find_params c)) s
       = adapter_count ((list_find_params c)\<lparr>p_limit := None, p_offset := None\<rparr>) s
   \<and> (length (filter (matches (list_query c)) s) = 5 \<and> limit c = Some 2 \<and> offset c = Some 0
        \<longrightarrow> obj_field (list_handler c s) ''gamesCount'' = JNum 5
            \<and> (\<exists>rows. obj_field (list_handler c s) ''games'' = JArr rows \<and> length rows = 2))"
proof (intro conjI impI)
  show "obj_field (list_handler c s) ''gamesCount'' = JNum (int (length (filter (matches (list_query c)) s)))"
    by (simp add: list_handler_eq obj_field_def field_def)
  show "obj_field (list_handler c s) ''games''
       = JArr (map (\<lambda>d. JObj (filterFields settings_fields d)) (adapter_find (list_find_params c) s))"
    by (simp add: list_handler_eq obj_field_def field_def)
  show "adapter_find (list_find_params c) s
       = (let rows = sort_rows [''-createdAt''] (filter (matches (list_query c)) s);
              rows = (if 0 < page_offset (offset c) then drop (nat (page_offset (offset c))) rows else rows)
          in if 0 < page_limit (limit c) then take (nat (page_limit (limit c))) rows else rows)"
    by (rule list_rows)
  show "adapter_count (strip_pagination (list_find_params c)) s
       = adapter_count ((list_find_params c)\<lparr>p_limit := None, p_offset := None\<rparr>) s"
    by (simp add: list_count count_stripped) (simp add: list_find_params_def)
next
  assume h: "length (filter (matches (list_query c)) s) = 5 \<and> limit c = Some 2 \<and> offset c = Some 0"
  then show "obj_field (list_handler c s) ''gamesCount'' = JNum 5"
    by (simp add: list_handler_eq obj_field_def field_def)
  from h have "length (adapter_find (list_find_params c) s) = 2"
    by (simp add: list_rows page_limit_def page_offset_def length_sort_rows)
  then show "\<exists>rows. obj_field (list_handler c s) ''games'' = JArr rows \<and> length rows = 2"
    by (simp add: list_handler_eq obj_field_def field_def)
qed


theorem list_count_without_pagination_witness:
  "length (filter (matches (list_query \<lparr>creator = None, limit = Some 2, offset = Some 0, tag = None\<rparr>))
             five_games) = 5
   \<and> obj_field (list_handler \<lparr>creator = None, limit = Some 2, offset = Some 0, tag = None\<rparr> five_games)
        ''gamesCount'' = JNum 5
   \<and> obj_field (list_handler \<lparr>creator = None, limit = Some 2, offset = Some 0, tag = None\<rparr> five_games)
        ''games''
      = JArr [JObj [(''_id'', JStr ''g5''), (''name'', JStr ''Chess''),
                    (''description'', JStr ''A board game''), (''createdAt'', JDate 5),
                    (''updatedAt'', JDate 5), (''creator'', JStr ''userA'')],
              JObj [(''_id'', JStr ''g4''), (''name'', JStr ''Chess''),
                    (''description'', JStr ''A board game''), (''createdAt'', JDate 4),
                    (''updatedAt'', JDate 4), (''creator'', JStr ''userA'')]]"
proof -
  let ?c = "\<lparr>creator = None, limit = Some 2, offset = Some 0, tag = None\<rparr>"
  have q: "list_query ?c = []" by (simp add: list_query_def)
  have n: "length (filter (matches (list_query ?c)) five_games) = 5"
    by (simp add: q matches_def five_games_def)
  have rows: "adapter_find (list_find_params ?c) five_games = [game_no ''g5'' 5, game_no ''g4'' 4]"
    by (simp add: adapter_find_def list_find_params_def q page_limit_def page_offset_def
          matches_def sort_rows_def created_time_def field_def five_games_def game_no_def)
  have proj: "map (\<lambda>d. JObj (filterFields settings_fields d)) [game_no ''g5'' 5, game_no ''g4'' 4]
      = [JObj [(''_id'', JStr ''g5''), (''name'', JStr ''Chess''),
                    (''description'', JStr ''A board game''), (''createdAt'', JDate 5),
                    (''updatedAt'', JDate 5), (''creator'', JStr ''userA'')],
         JObj [(''_id'', JStr ''g4''), (''name'', JStr ''Chess''),
                    (''description'', JStr ''A board game''), (''createdAt'', JDate 4),
                    (''updatedAt'', JDate 4), (''creator'', JStr ''userA'')]]"
    by (simp add: filterFields_def settings_fields_def field_def game_no_def)
  note t = list_count_without_pagination [of ?c five_games]
  have hyp: "length (filter (matches (list_query ?c)) five_games) = 5
             \<and> limit ?c = Some 2 \<and> offset ?c = Some 0"
    using n by simp
  from t have "length (filter (matches (list_query ?c)) five_games) = 5
               \<and> limit ?c = Some 2 \<and> offset ?c = Some 0
        \<longrightarrow> obj_field (list_handler ?c five_games) ''gamesCount'' = JNum 5
            \<and> (\<exists>rows. obj_field (list_handler ?c five_games) ''games'' = JArr rows \<and> length rows = 2)"
    by (rule conjunct2 [THEN conjunct2, THEN conjunct2, THEN conjunct2])
  with hyp have cnt: "obj_field (list_handler ?c five_games) ''gamesCount'' = JNum 5"
    by blast
  from t have "obj_field (list_handler ?c five_games) ''games''
               = JArr (map (\<lambda>d. JObj (filterFields settings_fields d))
                          (adapter_find (list_find_params ?c) five_games))"
    by (rule conjunct2 [THEN conjunct1])
  then have games: "obj_field (list_handler ?c five_games) ''games''
      = JArr [JObj [(''_id'', JStr ''g5''), (''name'', JStr ''Chess''),
                    (''description'', JStr ''A board game''), (''createdAt'', JDate 5),
                    (''updatedAt'', JDate 5), (''creator'', JStr ''userA'')],
              JObj [(''_id'', JStr ''g4''), (''name'', JStr ''Chess''),
                    (''description'', JStr ''A board game''), (''createdAt'', JDate 4),
                    (''updatedAt'', JDate 4), (''creator'', JStr ''userA'')]]"
    by (simp only: rows proj)
  from n cnt games show ?thesis by (intro conjI)
qed

lemma listByUser_rows:
  "adapter_find (listByUser_find_params u) s
   = (let rows = sort_rows [''-createdAt''] (filter (matches [(''game'', Eq (JStr (by_creator u)))]) s);
          rows = (if 0 < page_offset (by_offset u) then drop (nat (page_offset (by_offset u))) rows else rows)
      in if 0 < page_limit (by_limit u) then take (nat (page_limit (by_limit u))) rows else rows)"
  by (simp add: adapter_find_def listByUser_find_params_def Let_def)

text \<open>What a list call with limit 0 returns: the first 20 rows after the offset, and the
  count of all matches.\<close>

lemma list_handler_limit0:
  "list_handler (c\<lparr>limit := Some 0\<rparr>) s
   = JObj [(''games'', JArr (map (\<lambda>d. JObj (filterFields settings_fields d))
              (take 20 (drop (nat (page_offset (offset c)))
                 (sort_rows [''-createdAt''] (filter (matches (list_query c)) s)))))),
           (''gamesCount'', JNum (int (length (filter (matches (list_query c)) s))))]"
proof -
  have q: "list_query (c\<lparr>limit := Some 0\<rparr>) = list_query c"
    by (simp add: list_query_def)
  have "adapter_find (list_find_params (c\<lparr>limit := Some 0\<rparr>)) s
        = take 20 (drop (nat (page_offset (offset c)))
            (sort_rows [''-createdAt''] (filter (matches (list_query c)) s)))"
    by (simp add: list_rows q page_limit_def Let_def)
  then show ?thesis by (simp add: list_handler_eq q)
qed

lemma listByUser_handler_limit0:
  "listByUser_handler (u\<lparr>by_limit := Some 0\<rparr>) s
   = JObj [(''games'', JArr (map (\<lambda>d. JObj (filterFields settings_fields d))
              (take 20 (drop (nat (page_offset (by_offset u)))
                 (sort_rows [''-createdAt'']
                    (filter (matches [(''game'', Eq (JStr (by_creator u)))]) s)))))),
           (''commentsCount'',
              JNum (int (length (filter (matches [(''game'', Eq (JStr (by_creator u)))]) s))))]"
proof -
  have m: "matches [(''game'', Eq (JStr (by_creator u)))]
           = (\<lambda>d. field d ''game'' = JStr (by_creator u))"
    by (rule ext) (simp add: matches_def)
  have "adapter_find (listByUser_find_params (u\<lparr>by_limit := Some 0\<rparr>)) s
        = take 20 (drop (nat (page_offset (by_offset u)))
            (sort_rows [''-createdAt''] (filter (matches [(''game'', Eq (JStr (by_creator u)))]) s)))"
    by (simp add: listByUser_rows page_limit_def Let_def)
  then show ?thesis by (simp add: listByUser_handler_eq m)
qed

text \<open>
  Claim C10. In list and listByUser a limit of 0 is treated as absent and replaced by the
  default 20: a call with limit 0 returns what the call with no limit and the call with
  limit 20 return, namely the first 20 sorted matching rows after the offset, with the
  count of all matches, and not an empty page. An offset of 0 coincides with the
  default 0.
\<close>

theorem limit_zero_is_default:
  "page_limit (Some 0) = 20 \<and> page_limit None = 20
   \<and> page_offset (Some 0) = 0 \<and> page_offset None = 0
   \<and> list_handler (c\<lparr>limit := Some 0\<rparr>) s = list_handler (c\<lparr>limit := None\<rparr>) s
   \<and> list_handler (c\<lparr>limit := Some 0\<rparr>) s = list_handler (c\<lparr>limit := Some 20\<rparr>) s
   \<and> list_handler (c\<lparr>offset := Some 0\<rparr>) s = list_handler (c\<lparr>offset := None\<rparr>) s
   \<and> listByUser_handler (u\<lparr>by_limit := Some 0\<rparr>) s = listByUser_handler (u\<lparr>by_limit := None\<rparr>) s
   \<and> listByUser_handler (u\<lparr>by_limit := Some 0\<rparr>) s = listByUser_handler (u\<lparr>by_limit := Some 20\<rparr>) s
   \<and> listByUser_handler (u\<lparr>by_offset := Some 0\<rparr>) s = listByUser_handler (u\<lparr>by_offset := None\<rparr>) s
   \<and> adapter_find (list_find_params (c\<lparr>limit := Some 0, offset := Some 0\<rparr>)) s
       = take 20 (sort_rows [''-createdAt''] (filter (matches (list_query c)) s))
   \<and> adapter_find (listByUser_find_params (u\<lparr>by_limit := Some 0, by_offset := Some 0\<rparr>)) s
       = take 20 (sort_rows [''-createdAt''] (filter (matches [(''game'', Eq (JStr (by_creator u)))]) s))
   \<and> list_handler (c\<lparr>limit := Some 0\<rparr>) s
       = JObj [(''games'', JArr (map (\<lambda>d. JObj (filterFields settings_fields d))
                  (take 20 (drop (nat (page_offset (offset c)))
                     (sort_rows [''-createdAt''] (filter (matches (list_query c)) s)))))),
               (''gamesCount'', JNum (int (length (filter (matches (list_query c)) s))))]
   \<and> listByUser_handler (u\<lparr>by_limit := Some 0\<rparr>) s
       = JObj [(''games'', JArr (map (\<lambda>d. JObj (filterFields settings_fields d))
                  (take 20 (drop (nat (page_offset (by_offset u)))
                     (sort_rows [''-createdAt'']
                        (filter (matches [(''game'', Eq (JStr (by_creator u)))]) s)))))),
               (''commentsCount'',
                  JNum (int (length (filter (matches [(''game'', Eq (JStr (by_creator u)))]) s))))]"
proof (intro conjI)
  show "adapter_find (list_find_params (c\<lparr>limit := Some 0, offset := Some 0\<rparr>)) s
       = take 20 (sort_rows [''-createdAt''] (filter (matches (list_query c)) s))"
    by (simp add: adapter_find_def list_find_params_def page_limit_def page_offset_def list_query_def)
  show "adapter_find (listByUser_find_params (u\<lparr>by_limit := Some 0, by_offset := Some 0\<rparr>)) s
       = take 20 (sort_rows [''-createdAt''] (filter (matches [(''game'', Eq (JStr (by_creator u)))]) s))"
    by (simp add: adapter_find_def listByUser_find_params_def page_limit_def page_offset_def)
  show "list_handler (c\<lparr>limit := Some 0\<rparr>) s
       = JObj [(''games'', JArr (map (\<lambda>d. JObj (filterFields settings_fields d))
                  (take 20 (drop (nat (page_offset (offset c)))
                     (sort_rows [''-createdAt''] (filter (matches (list_query c)) s)))))),
               (''gamesCount'', JNum (int (length (filter (matches (list_query c)) s))))]"
    by (rule list_handler_limit0)
  show "listByUser_handler (u\<lparr>by_limit := Some 0\<rparr>) s
       = JObj [(''games'', JArr (map (\<lambda>d. JObj (filterFields settings_fields d))
                  (take 20 (drop (nat (page_offset (by_offset u)))
                     (sort_rows [''-createdAt'']
                        (filter (matches [(''game'', Eq (JStr (by_creator u)))]) s)))))),
               (''commentsCount'',
                  JNum (int (length (filter (matches [(''game'', Eq (JStr (by_creator u)))]) s))))]"
    by (rule listByUser_handler_limit0)
qed (simp_all only: list_handler_def listByUser_handler_def
       list_find_params_limit0 listByUser_find_params_limit0, simp_all add: page_limit_def page_offset_def)

theorem limit_zero_is_default_witness:
  "list_handler \<lparr>creator = None, limit = Some 0, offset = None, tag = None\<rparr> five_games
     = list_handler \<lparr>creator = None, limit = None, offset = None, tag = None\<rparr> five_games
   \<and> list_handler \<lparr>creator = None, limit = Some 0, offset = None, tag = None\<rparr> five_games
     = JObj [(''games'', JArr (map (\<lambda>d. JObj (filterFields settings_fields d))
                [game_no ''g5'' 5, game_no ''g4'' 4, game_no ''g3'' 3, game_no ''g2'' 2,
                 game_no ''g1'' 1])),
             (''gamesCount'', JNum 5)]"
proof -
  let ?c = "\<lparr>creator = None, limit = None, offset = None, tag = None\<rparr>"
  have a: "?c\<lparr>limit := Some 0\<rparr> = \<lparr>creator = None, limit = Some 0, offset = None, tag = None\<rparr>"
    by simp
  have a': "?c\<lparr>limit := None\<rparr> = ?c"
    by simp
  have q: "filter (matches (list_query ?c)) five_games = five_games"
    by (simp add: list_query_def matches_def)
  have o: "nat (page_offset (offset ?c)) = 0"
    by (simp add: page_offset_def)
  have s: "take 20 (drop 0 (sort_rows [''-createdAt''] five_games))
           = [game_no ''g5'' 5, game_no ''g4'' 4, game_no ''g3'' 3, game_no ''g2'' 2, game_no ''g1'' 1]"
    by (simp add: sort_rows_def created_time_def field_def five_games_def game_no_def)
  have n: "int (length five_games) = 5"
    by (simp add: five_games_def)
  note t = limit_zero_is_default [of ?c five_games]
  have "list_handler (?c\<lparr>limit := Some 0\<rparr>) five_games = list_handler (?c\<lparr>limit := None\<rparr>) five_games"
    using t by blast
  then have x: "list_handler \<lparr>creator = None, limit = Some 0, offset = None, tag = None\<rparr> five_games
     = list_handler ?c five_games"
    by (simp only: a a')
  have "list_handler (?c\<lparr>limit := Some 0\<rparr>) five_games
       = JObj [(''games'', JArr (map (\<lambda>d. JObj (filterFields settings_fields d))
                  (take 20 (drop (nat (page_offset (offset ?c)))
                     (sort_rows [''-createdAt''] (filter (matches (list_query ?c)) five_games)))))),
               (''gamesCount'', JNum (int (length (filter (matches (list_query ?c)) five_games))))]"
    using t by blast
  then have y: "list_handler \<lparr>creator = None, limit = Some 0, offset = None, tag = None\<rparr> five_games
     = JObj [(''games'', JArr (map (\<lambda>d. JObj (filterFields settings_fields d))
                [game_no ''g5'' 5, game_no ''g4'' 4, game_no ''g3'' 3, game_no ''g2'' 2,
                 game_no ''g1'' 1])),
             (''gamesCount'', JNum 5)]"
    by (simp only: a q o s n)
  from x y show ?thesis by (intro conjI)
qed

subsection \<open>create: the slug\<close>

lemma to_int32_id: "0 \<le> r \<Longrightarrow> r < 2 ^ 31 \<Longrightarrow> to_int32 r = r"
  by (simp add: to_int32_def Let_def)

lemma digit36_member: "n < 36 \<Longrightarrow> digits36 ! n \<in> set digits36"
proof -
  assume "n < 36"
  moreover have "length digits36 = 36" by (simp add: digits36_def)
  ultimately show "digits36 ! n \<in> set digits36" by (metis nth_mem)
qed

lemma to_base36_chars: "list_all (\<lambda>c. c \<in> set digits36) (to_base36 n)"
proof (induction n rule: to_base36.induct)
  case (1 n)
  show ?case
  proof (cases "n < 36")
    case True
    then show ?thesis by (simp add: to_base36.simps [of n] digit36_member)
  next
    case False
    have "n mod 36 < 36" by simp
    with False "1.IH" show ?thesis
      by (simp add: to_base36.simps [of n] digit36_member)
  qed
qed

lemma to_base36_length_pos: "1 \<le> length (to_base36 n)"
  by (simp add: to_base36.simps [of n])

lemma to_base36_length_le: "0 < k \<Longrightarrow> n < 36 ^ k \<Longrightarrow> length (to_base36 n) \<le> k"
proof (induction n arbitrary: k rule: to_base36.induct)
  case (1 n)
  show ?case
  proof (cases "n < 36")
    case True
    with "1.prems" show ?thesis by (simp add: to_base36.simps [of n])
  next
    case False
    with "1.prems" obtain j where k: "k = Suc j" by (cases k) auto
    with False "1.prems" have j: "0 < j" by (cases j) auto
    from "1.prems" k have "n div 36 < 36 ^ j"
      by (simp add: less_mult_imp_div_less mult.commute)
    from "1.IH" [OF False j this] False k show ?thesis
      by (simp add: to_base36.simps [of n])
  qed
qed

lemma to_base36_length_gt: "36 ^ k \<le> n \<Longrightarrow> k < length (to_base36 n)"
proof (induction n arbitrary: k rule: to_base36.induct)
  case (1 n)
  show ?case
  proof (cases "n < 36")
    case True
    with "1.prems" have "(36::nat) ^ k < 36 ^ 1" by simp
    then have "k < 1" by (rule power_less_imp_less_exp [rotated]) simp
    then show ?thesis by (simp add: to_base36.simps [of n])
  next
    case False
    show ?thesis
    proof (cases k)
      case 0
      then show ?thesis by (simp add: to_base36.simps [of n])
    next
      case (Suc j)
      with "1.prems" have "36 ^ j \<le> n div 36"
        by (simp add: less_eq_div_iff_mult_less_eq mult.commute)
      from "1.IH" [OF False this] False Suc show ?thesis
        by (simp add: to_base36.simps [of n])
    qed
  qed
qed

lemma to_base36_length_6: 
  assumes "n < 36 ^ 6"
  shows "length (to_base36 n) = 6 \<longleftrightarrow> 36 ^ 5 \<le> n"
proof
  assume l: "length (to_base36 n) = 6"
  show "36 ^ 5 \<le> n"
  proof (rule ccontr)
    assume "\<not> 36 ^ 5 \<le> n"
    then have "n < 36 ^ 5" by simp
    then have "length (to_base36 n) \<le> 5" by (intro to_base36_length_le) simp_all
    with l show False by simp
  qed
next
  assume "36 ^ 5 \<le> n"
  then have "5 < length (to_base36 n)" by (rule to_base36_length_gt)
  moreover have "length (to_base36 n) \<le> 6" using assms by (intro to_base36_length_le) simp_all
  ultimately show "length (to_base36 n) = 6" by simp
qed


lemma create_handler_valid:
  assumes "validateEntity game"
  shows "\<exists>doc. create_handler slugify rnd now new_id actor game s
               = (Inr (transformResult (transformDocuments (JObj doc))), s @ [doc])
             \<and> field doc ''slug'' = JStr (make_slug slugify rnd (name_of game))
             \<and> field doc ''creator'' = JStr actor"
  using assms
  by (simp add: create_handler_def adapter_insert_def Let_def
        field_set_field_same field_set_field_other)

lemma to_base36_example: "to_base36 60466176 = ''100000''"
  by (simp add: to_base36.simps digits36_def)

lemma lower_ascii_Chess: "lower_ascii ''Chess'' = ''chess''"
  by (simp add: lower_ascii_def)

text \<open>
  The claim that the suffix has exactly 6 characters fails: the number is rendered
  without padding, so the draw 0 gives the slug \<^verbatim>\<open>chess-0\<close>, which does not match
  \<^verbatim>\<open>chess-[0-9a-z]{6}\<close>.
\<close>

theorem create_slug_short_counterexample:
  "validateEntity [(''name'', JStr ''Chess''), (''description'', JStr ''A board game'')]
   \<and> create_handler lower_ascii 0 7 ''g1'' ''userA''
        [(''name'', JStr ''Chess''), (''description'', JStr ''A board game'')] []
      = (Inr (JObj [(''game'', JObj [(''_id'', JStr ''g1''), (''name'', JStr ''Chess''),
                      (''description'', JStr ''A board game''), (''createdAt'', JDate 7),
                      (''updatedAt'', JDate 7), (''creator'', JStr ''userA'')])]),
         [[(''name'', JStr ''Chess''), (''description'', JStr ''A board game''),
           (''slug'', JStr ''chess-0''), (''creator'', JStr ''userA''),
           (''createdAt'', JDate 7), (''updatedAt'', JDate 7), (''_id'', JStr ''g1'')]])
   \<and> \<not> slug_pattern6 ''chess'' ''chess-0''"
  by (simp add: model_defs to_base36.simps Let_def)

text \<open>
  Claim C4, amended. For every valid create input the stored slug is the slugified name,
  \<^verbatim>\<open>-\<close>, and the random draw rendered in base 36 without padding: for a draw below
  \<open>2\<^sup>3\<^sup>1\<close> the suffix has between 1 and 6 characters of \<^verbatim>\<open>[0-9a-z]\<close>, and exactly 6
  only when the draw is at least \<open>36\<^sup>5\<close>.
\<close>

theorem create_slug_suffix:
  assumes "validateEntity game" and "0 \<le> rnd" and "rnd < 2 ^ 31"
  shows "\<exists>doc res. create_handler slugify rnd now new_id actor game s = (Inr res, s @ [doc])
           \<and> field doc ''slug'' = JStr (slugify (name_of game) @ ''-'' @ to_base36 (nat rnd))
           \<and> 1 \<le> length (to_base36 (nat rnd)) \<and> length (to_base36 (nat rnd)) \<le> 6
           \<and> list_all (\<lambda>c. c \<in> set digits36) (to_base36 (nat rnd))
           \<and> (length (to_base36 (nat rnd)) = 6 \<longleftrightarrow> 36 ^ 5 \<le> rnd)"
proof -
  from assms(2,3) have slug: "make_slug slugify rnd (name_of game)
      = slugify (name_of game) @ ''-'' @ to_base36 (nat rnd)"
    by (simp add: make_slug_def toString36_def to_int32_id)
  from assms(2,3) have "nat rnd < 2 ^ 31" by (simp add: nat_less_iff)
  then have lt: "nat rnd < 36 ^ 6" by simp
  then have le6: "length (to_base36 (nat rnd)) \<le> 6"
    by (intro to_base36_length_le) simp_all
  from assms(2) have "(36 ^ 5 \<le> nat rnd) = (36 ^ 5 \<le> rnd)" by (simp add: le_nat_iff)
  with to_base36_length_6 [OF lt]
  have six: "length (to_base36 (nat rnd)) = 6 \<longleftrightarrow> 36 ^ 5 \<le> rnd" by simp
  from create_handler_valid [OF assms(1), of slugify rnd now new_id actor s] slug
  obtain doc where "create_handler slugify rnd now new_id actor game s
               = (Inr (transformResult (transformDocuments (JObj doc))), s @ [doc])"
    and "field doc ''slug'' = JStr (slugify (name_of game) @ ''-'' @ to_base36 (nat rnd))"
    by auto
  with le6 six to_base36_length_pos [of "nat rnd"] to_base36_chars [of "nat rnd"]
  show ?thesis by blast
qed

theorem create_slug_suffix_witness:
  "validateEntity [(''name'', JStr ''Chess''), (''description'', JStr ''A board game'')]
   \<and> (0::int) \<le> 60466176 \<and> (60466176::int) < 2 ^ 31
   \<and> snd (create_handler lower_ascii 60466176 7 ''g1'' ''userA''
            [(''name'', JStr ''Chess''), (''description'', JStr ''A board game'')] [])
      = [[(''name'', JStr ''Chess''), (''description'', JStr ''A board game''),
          (''slug'', JStr ''chess-100000''), (''creator'', JStr ''userA''),
          (''createdAt'', JDate 7), (''updatedAt'', JDate 7), (''_id'', JStr ''g1'')]]
   \<and> length (to_base36 (nat 60466176)) = 6
   \<and> slug_pattern6 ''chess'' ''chess-100000''"
proof -
  let ?game = "[(''name'', JStr ''Chess''), (''description'', JStr ''A board game'')]"
  have v: "validateEntity ?game"
    by (simp add: validateEntity_def string_min1_def field_def)
  have a: "(0::int) \<le> 60466176" by simp
  have b: "(60466176::int) < 2 ^ 31" by simp
  have n: "name_of ?game = ''Chess''" by (simp add: name_of_def field_def)
  have ev: "snd (create_handler lower_ascii 60466176 7 ''g1'' ''userA'' ?game [])
      = [[(''name'', JStr ''Chess''), (''description'', JStr ''A board game''),
          (''slug'', JStr ''chess-100000''), (''creator'', JStr ''userA''),
          (''createdAt'', JDate 7), (''updatedAt'', JDate 7), (''_id'', JStr ''g1'')]]"
    by (simp add: create_handler_def v n make_slug_def toString36_def to_int32_def
          to_base36_example lower_ascii_Chess adapter_insert_def set_field_def Let_def)
  have p: "slug_pattern6 ''chess'' ''chess-100000''"
    by (simp add: slug_pattern6_def digits36_def)
  from create_slug_suffix [OF v a b, of lower_ascii 7 "''g1''" "''userA''" "[]"]
  have "length (to_base36 (nat 60466176)) = 6" by auto
  with v a b ev p show ?thesis by (intro conjI)
qed

text \<open>A draw of \<open>2\<^sup>3\<^sup>1\<close> or more does not fit the signed 32-bit integer of
  \<^verbatim>\<open>| 0\<close>: it wraps to a negative number, whose rendering starts with a minus sign.\<close>

lemma make_slug_wraps: "make_slug lower_ascii 2147483648 ''Chess'' = ''chess--zik0zk''"
  by (simp add: make_slug_def toString36_def to_int32_def lower_ascii_Chess
        to_base36.simps digits36_def)

subsection \<open>listByUser: the filter\<close>

text \<open>
  Claim C1 at a failing input. The claim has listByUser return the stored entities whose
  \<^verbatim>\<open>creator\<close> is the given id, with their number as the count. The handler filters on the
  property \<^verbatim>\<open>game\<close>, which no created entity has: for the creator of a stored game it
  returns no games and a count of 0.
\<close>

theorem listByUser_reads_game_field:
  "field chess ''creator'' = JStr ''userA''
   \<and> listByUser_handler \<lparr>by_creator = ''userA'', by_limit = None, by_offset = None\<rparr> [chess, go]
      = JObj [(''games'', JArr []), (''commentsCount'', JNum 0)]"
  by (simp add: listByUser_handler_eq adapter_find_def listByUser_find_params_def matches_def
        sort_rows_def page_limit_def page_offset_def field_def chess_def go_def)

subsection \<open>list: the cache key\<close>

text \<open>
  Claim C2 at a failing input. The claim has two list requests of one actor that differ
  in a supplied filter get different cache keys. The configured keys do not name
  \<^verbatim>\<open>tag\<close>, which the handler filters on: two requests that differ only in the tag have
  the same key and different results.
\<close>

theorem list_cache_key_ignores_tag:
  "list_cache_key u (c\<lparr>tag := Some ''board''\<rparr>) = list_cache_key u (c\<lparr>tag := Some ''card''\<rparr>)
   \<and> obj_field (list_handler \<lparr>creator = None, limit = None, offset = None, tag = Some ''board''\<rparr> [chess, go])
        ''gamesCount'' = JNum 1
   \<and> obj_field (list_handler \<lparr>creator = None, limit = None, offset = None, tag = Some ''card''\<rparr> [chess, go])
        ''gamesCount'' = JNum 0"
proof (intro conjI)
  show "list_cache_key u (c\<lparr>tag := Some ''board''\<rparr>) = list_cache_key u (c\<lparr>tag := Some ''card''\<rparr>)"
    by (simp add: list_cache_key_def getCacheKey_def list_cache_keys_def list_param_def)
  show "obj_field (list_handler \<lparr>creator = None, limit = None, offset = None, tag = Some ''board''\<rparr> [chess, go])
        ''gamesCount'' = JNum 1"
    by (simp add: list_handler_eq obj_field_def list_query_def matches_def field_def chess_def go_def)
  show "obj_field (list_handler \<lparr>creator = None, limit = None, offset = None, tag = Some ''card''\<rparr> [chess, go])
        ''gamesCount'' = JNum 0"
    by (simp add: list_handler_eq obj_field_def list_query_def matches_def field_def chess_def go_def)
qed

subsection \<open>transformResult\<close>

text \<open>
  Claim C9. transformResult wraps a list as \<^verbatim>\<open>{games: [...]}\<close>, with one transformed element
  per input element in the input's order, and anything else as \<^verbatim>\<open>{game: entity}\<close>: an
  object is passed through unchanged, and \<^verbatim>\<open>null\<close> or \<^verbatim>\<open>undefined\<close> gives
  \<^verbatim>\<open>{game: null}\<close>, not an error.
\<close>

theorem transformResult_envelope:
  "transformResult (JArr xs) = JObj [(''games'', JArr (map transformEntity xs))]
   \<and> length (map transformEntity xs) = length xs
   \<and> (\<forall>i < length xs. map transformEntity xs ! i = transformEntity (xs ! i))
   \<and> transformResult (JObj d) = JObj [(''game'', JObj d)]
   \<and> transformEntity (JObj d) = JObj d
   \<and> transformResult JNull = JObj [(''game'', JNull)]
   \<and> transformResult JUndefined = JObj [(''game'', JNull)]"
  by (simp add: transformEntity_def)

theorem transformResult_envelope_witness:
  "transformResult (JArr [JObj [(''name'', JStr ''Chess'')], JNull, JObj [(''name'', JStr ''Go'')]])
     = JObj [(''games'', JArr [JObj [(''name'', JStr ''Chess'')], JNull, JObj [(''name'', JStr ''Go'')]])]
   \<and> map transformEntity [JObj [(''name'', JStr ''Chess'')], JNull, JObj [(''name'', JStr ''Go'')]] ! 2
     = JObj [(''name'', JStr ''Go'')]
   \<and> transformResult (JObj [(''name'', JStr ''Chess'')]) = JObj [(''game'', JObj [(''name'', JStr ''Chess'')])]
   \<and> transformResult JNull = JObj [(''game'', JNull)]"
  using transformResult_envelope
    [of "[JObj [(''name'', JStr ''Chess'')], JNull, JObj [(''name'', JStr ''Go'')]]"
        "[(''name'', JStr ''Chess'')]"]
  by (simp add: transformEntity_def)

end
